theory Spec2Isabelle
  imports Complex_Main "HOL-Library.Word" "HOL-Library.Sublist"
begin

section \<open>JavaScript values shared by both services\<close>

text \<open>
  A thrown JavaScript value. Every \<^verbatim>\<open>throw\<close> of the sources and every rejection of an
  awaited promise is a value \<open>Inl e\<close> of a result type \<open>js_error + 'a\<close>; a resolved
  promise is \<open>Inr v\<close>.
\<close>

datatype js_error = JsError string

text \<open>
  \<^verbatim>\<open>try { body } catch { handler }\<close>: the handler runs on the state the body left behind
  when it threw.
\<close>

definition try_catch ::
  "(js_error + 'a) \<times> 's \<Rightarrow> (js_error \<Rightarrow> 's \<Rightarrow> (js_error + 'a) \<times> 's) \<Rightarrow> (js_error + 'a) \<times> 's" where
  "try_catch body handler =
     (case body of (Inl e, s) \<Rightarrow> handler e s | (Inr v, s) \<Rightarrow> (Inr v, s))"

section \<open>SunspotService\<close>

datatype deployment_network = Devnet | MainnetBeta | Testnet

type_synonym bytes = "8 word list"

record sunspot_deployment_config =
  verificationKey :: bytes
  network :: deployment_network
  circuitName :: string

record sunspot_deployment_result =
  programId :: string
  transactionSignature :: string
  network :: deployment_network
  cost :: rat

record verification_config =
  programId :: string
  proof_data :: bytes
  publicInputs :: "string list"
  network :: deployment_network

record on_chain_verification_result =
  isValid :: bool
  transactionSignature :: string
  network :: deployment_network
  timestamp :: int

text \<open>The parts of the \<^verbatim>\<open>@solana/web3.js\<close> objects that the service builds and passes on.\<close>

record account_meta =
  pubkey :: string
  isSigner :: bool
  isWritable :: bool

datatype instruction =
  CreateAccount string string nat nat string
| TransactionInstruction "account_meta list" string bytes

record transaction =
  instructions :: "instruction list"
  recentBlockhash :: "string option"
  feePayer :: "string option"
  signatures :: "string list"

text \<open>
  What \<^verbatim>\<open>connection.confirmTransaction\<close> resolves to: the slot, and \<^verbatim>\<open>value.err\<close>, which is
  \<^verbatim>\<open>null\<close> when the transaction succeeded on chain and the program's error otherwise.
\<close>

record confirmation =
  context_slot :: nat
  err :: "string option"

text \<open>
  The ledger and the library as one call sees them: the key of \<^verbatim>\<open>Keypair.generate()\<close>
  in base 58, \<^verbatim>\<open>new PublicKey(s)\<close> (it throws on a malformed key), the RPC methods of the
  connection, \<^verbatim>\<open>serialize()\<close> of the transaction the signer returned (it throws when a
  signature is missing or wrong), and \<^verbatim>\<open>Date.now()\<close>.
\<close>

record chain_env =
  generate_keypair :: string
  new_PublicKey :: "string \<Rightarrow> js_error + string"
  getMinimumBalanceForRentExemption :: "nat \<Rightarrow> js_error + nat"
  getLatestBlockhash :: "js_error + string \<times> nat"
  serialize :: "transaction \<Rightarrow> js_error + bytes"
  sendRawTransaction :: "bytes \<Rightarrow> js_error + string"
  confirmTransaction :: "string \<Rightarrow> string \<Rightarrow> nat \<Rightarrow> js_error + confirmation"
  Date_now :: int

definition SystemProgram_programId :: string where
  "SystemProgram_programId = ''11111111111111111111111111111111''"

definition LAMPORTS_PER_SOL :: nat where
  "LAMPORTS_PER_SOL = 1000000000"

record sunspot_service =
  network :: deployment_network

text \<open>
  What one orchestrated call does that the outside can see, in order: the calls of the
  progress callback, the RPC requests and the call of the external signer.
\<close>

datatype chain_event =
  Progress nat string
| RentExemptionRequest nat
| BlockhashRequest
| SignRequest transaction
| SendRequest bytes
| ConfirmRequest string

text \<open>
  \<^verbatim>\<open>onProgress?.(progress, message)\<close>: nothing happens when no callback was passed. A
  callback that was passed is taken to return normally.
\<close>

definition emit :: "bool \<Rightarrow> nat \<Rightarrow> string \<Rightarrow> chain_event list" where
  "emit onProgress progress message = (if onProgress then [Progress progress message] else [])"

definition deployVerifier ::
  "sunspot_service \<Rightarrow> chain_env \<Rightarrow> sunspot_deployment_config \<Rightarrow> string \<Rightarrow>
   (transaction \<Rightarrow> js_error + transaction) \<Rightarrow> bool \<Rightarrow>
   (js_error + sunspot_deployment_result) \<times> chain_event list" where
  "deployVerifier svc E config walletPublicKey signTransaction onProgress =
     (let t1 = emit onProgress 10 ''Preparing deployment...'';
          verifierAccount = generate_keypair E;
          programId = verifierAccount;
          t2 = t1 @ emit onProgress 20 ''Calculating deployment cost...'';
          verifierDataSize = length (verificationKey config) + 64;
          t3 = t2 @ [RentExemptionRequest verifierDataSize]
      in case getMinimumBalanceForRentExemption E verifierDataSize of
           Inl e \<Rightarrow> (Inl e, t3)
         | Inr lamports \<Rightarrow>
      (let t4 = t3 @ emit onProgress 30 ''Creating verifier account...'';
           createAccountIx = CreateAccount walletPublicKey verifierAccount lamports
                               verifierDataSize SystemProgram_programId;
           storeDataIx = TransactionInstruction
                           [\<lparr>pubkey = verifierAccount, isSigner = False, isWritable = True\<rparr>,
                            \<lparr>pubkey = walletPublicKey, isSigner = True, isWritable = False\<rparr>]
                           SystemProgram_programId (verificationKey config);
           t5 = t4 @ emit onProgress 40 ''Building transaction...'';
           transaction = \<lparr>instructions = [createAccountIx], recentBlockhash = None,
                          feePayer = None, signatures = []\<rparr>;
           t6 = t5 @ [BlockhashRequest]
       in case getLatestBlockhash E of
            Inl e \<Rightarrow> (Inl e, t6)
          | Inr (blockhash, lastValidBlockHeight) \<Rightarrow>
      (let transaction = transaction\<lparr>recentBlockhash := Some blockhash,
                                      feePayer := Some walletPublicKey\<rparr>;
           t7 = t6 @ emit onProgress 50 ''Signing transaction...'';
           transaction = transaction\<lparr>signatures := signatures transaction @ [verifierAccount]\<rparr>;
           t8 = t7 @ [SignRequest transaction]
       in case signTransaction transaction of
            Inl e \<Rightarrow> (Inl e, t8)
          | Inr signedTransaction \<Rightarrow>
      (let t9 = t8 @ emit onProgress 70 ''Sending transaction...''
       in case serialize E signedTransaction of
            Inl e \<Rightarrow> (Inl e, t9)
          | Inr raw \<Rightarrow>
      (let t10 = t9 @ [SendRequest raw]
       in case sendRawTransaction E raw of
            Inl e \<Rightarrow> (Inl e, t10)
          | Inr signature \<Rightarrow>
      (let t11 = t10 @ emit onProgress 85 ''Confirming transaction...'' @ [ConfirmRequest signature]
       in case confirmTransaction E signature blockhash lastValidBlockHeight of
            Inl e \<Rightarrow> (Inl e, t11)
          | Inr confirmed \<Rightarrow>
              (Inr \<lparr>sunspot_deployment_result.programId = programId,
                    sunspot_deployment_result.transactionSignature = signature,
                    sunspot_deployment_result.network = sunspot_service.network svc,
                    cost = of_nat lamports / of_nat LAMPORTS_PER_SOL\<rparr>,
               t11 @ emit onProgress 100 ''Deployment complete!'')))))))"

text \<open>\<^verbatim>\<open>xs.join(',')\<close>, and \<^verbatim>\<open>Buffer.from(s)\<close> on text whose characters are single bytes.\<close>

fun join_comma :: "string list \<Rightarrow> string" where
  "join_comma [] = []"
| "join_comma [x] = x"
| "join_comma (x # y # ys) = x @ '','' @ join_comma (y # ys)"

definition Buffer_from :: "string \<Rightarrow> bytes" where
  "Buffer_from s = map of_char s"

definition verifyProofOnChain ::
  "sunspot_service \<Rightarrow> chain_env \<Rightarrow> verification_config \<Rightarrow> string \<Rightarrow>
   (transaction \<Rightarrow> js_error + transaction) \<Rightarrow> bool \<Rightarrow>
   (js_error + on_chain_verification_result) \<times> chain_event list" where
  "verifyProofOnChain svc E config walletPublicKey signTransaction onProgress =
     (let t1 = emit onProgress 10 ''Preparing verification...'';
          verificationData = proof_data config @ Buffer_from (join_comma (publicInputs config))
      in case new_PublicKey E (verification_config.programId config) of
           Inl e \<Rightarrow> (Inl e, t1)
         | Inr verifier \<Rightarrow>
      (let verifyIx = TransactionInstruction
                        [\<lparr>pubkey = verifier, isSigner = False, isWritable = False\<rparr>,
                         \<lparr>pubkey = walletPublicKey, isSigner = True, isWritable = False\<rparr>]
                        SystemProgram_programId verificationData;
           t2 = t1 @ emit onProgress 30 ''Building verification transaction...'';
           transaction = \<lparr>instructions = [verifyIx], recentBlockhash = None,
                          feePayer = None, signatures = []\<rparr>;
           t3 = t2 @ [BlockhashRequest]
       in case getLatestBlockhash E of
            Inl e \<Rightarrow> (Inl e, t3)
          | Inr (blockhash, lastValidBlockHeight) \<Rightarrow>
      (let transaction = transaction\<lparr>recentBlockhash := Some blockhash,
                                      feePayer := Some walletPublicKey\<rparr>;
           t4 = t3 @ emit onProgress 50 ''Signing verification transaction...'' @ [SignRequest transaction]
       in case signTransaction transaction of
            Inl e \<Rightarrow> (Inl e, t4)
          | Inr signedTransaction \<Rightarrow>
      (let t5 = t4 @ emit onProgress 70 ''Sending verification transaction...''
       in case serialize E signedTransaction of
            Inl e \<Rightarrow> (Inl e, t5)
          | Inr raw \<Rightarrow>
      (let t6 = t5 @ [SendRequest raw]
       in case sendRawTransaction E raw of
            Inl e \<Rightarrow> (Inl e, t6)
          | Inr signature \<Rightarrow>
      (let t7 = t6 @ emit onProgress 85 ''Confirming verification...'' @ [ConfirmRequest signature]
       in case confirmTransaction E signature blockhash lastValidBlockHeight of
            Inl e \<Rightarrow> (Inl e, t7)
          | Inr confirmed \<Rightarrow>
              (Inr \<lparr>isValid = True,
                    on_chain_verification_result.transactionSignature = signature,
                    on_chain_verification_result.network = sunspot_service.network svc,
                    timestamp = Date_now E\<rparr>,
               t7 @ emit onProgress 100 ''Verification complete!'')))))))"

text \<open>The progress values a trace passed to the callback, in order.\<close>

fun progress_values :: "chain_event list \<Rightarrow> nat list" where
  "progress_values [] = []"
| "progress_values (Progress p m # t) = p # progress_values t"
| "progress_values (e # t) = progress_values t"

section \<open>The browser's localStorage, one key at a time\<close>

text \<open>
  What \<^verbatim>\<open>JSON.parse(localStorage.getItem(key) || dflt)\<close> meets under one key:
  \<^item> \<open>Missing\<close>: \<^verbatim>\<open>getItem\<close> returns \<^verbatim>\<open>null\<close> (or the empty string), so the default text is parsed;
  \<^item> \<open>Unreadable\<close>: \<^verbatim>\<open>localStorage\<close> is not there or \<^verbatim>\<open>getItem\<close> throws;
  \<^item> \<open>Unparseable\<close>: the text is not JSON of the shape the reader goes on to use;
  \<^item> \<open>Stored v\<close>: the text is the JSON of \<open>v\<close>.
  \<open>accepts_writes\<close> says whether the next \<^verbatim>\<open>setItem\<close> succeeds (it throws when the quota
  is exceeded or storage is disabled). Every operation below calls \<^verbatim>\<open>setItem\<close> at most once.
\<close>

datatype 'v slot = Missing | Unreadable | Unparseable | Stored 'v

record 'v local_storage =
  item :: "'v slot"
  accepts_writes :: bool

definition getItem_parse :: "'v local_storage \<Rightarrow> 'v \<Rightarrow> js_error + 'v" where
  "getItem_parse ls dflt =
     (case item ls of
        Missing \<Rightarrow> Inr dflt
      | Unreadable \<Rightarrow> Inl (JsError ''SecurityError'')
      | Unparseable \<Rightarrow> Inl (JsError ''SyntaxError'')
      | Stored v \<Rightarrow> Inr v)"

definition setItem_stringify :: "'v local_storage \<Rightarrow> 'v \<Rightarrow> (js_error + unit) \<times> 'v local_storage" where
  "setItem_stringify ls v =
     (if accepts_writes ls then (Inr (), ls\<lparr>item := Stored v\<rparr>)
      else (Inl (JsError ''QuotaExceededError''), ls))"

section \<open>Artifacts and gallery entries\<close>

text \<open>\<^verbatim>\<open>interface UploadResult { cid: string; url: string }\<close>\<close>

record upload_result =
  cid :: string
  url :: string

text \<open>
  Modelled from the spec: the type declarations \<^verbatim>\<open>SharedCircuit\<close> and \<^verbatim>\<open>GalleryCircuit\<close>
  of \<^verbatim>\<open>@/types\<close>. The artifact has an identifier, a title, a description, an author label, a
  creation timestamp, free-text tags and the source text; a gallery entry has all of these
  plus the counters \<open>views\<close> and \<open>likes\<close>. The field names \<open>cid\<close>, \<open>title\<close>,
  \<open>description\<close>, \<open>tags\<close>, \<open>timestamp\<close>, \<open>views\<close> and \<open>likes\<close> are the ones
  \<^verbatim>\<open>GalleryService\<close> reads.
\<close>

record shared_circuit =
  cid :: string
  title :: string
  description :: string
  author :: string
  timestamp :: int
  tags :: "string list"
  code :: string

record gallery_circuit = shared_circuit +
  views :: nat
  likes :: nat

text \<open>\<^verbatim>\<open>{ ...circuit, views: 0, likes: 0 }\<close>\<close>

definition with_zero_counters :: "shared_circuit \<Rightarrow> gallery_circuit" where
  "with_zero_counters circuit =
     \<lparr>cid = cid circuit, title = title circuit, description = description circuit,
      author = author circuit, timestamp = timestamp circuit, tags = tags circuit,
      code = code circuit, views = 0, likes = 0\<rparr>"

section \<open>Array and string helpers of the JavaScript library\<close>

text \<open>\<^verbatim>\<open>Array.prototype.findIndex\<close>: the first index whose element satisfies \<open>P\<close>, or \<open>-1\<close>.\<close>

fun findIndex :: "('a \<Rightarrow> bool) \<Rightarrow> 'a list \<Rightarrow> int" where
  "findIndex P [] = - 1"
| "findIndex P (x # xs) =
     (if P x then 0 else (let i = findIndex P xs in if i < 0 then - 1 else i + 1))"

text \<open>\<^verbatim>\<open>xs.slice(0, n)\<close>; a negative \<open>n\<close> counts from the end.\<close>

definition slice0 :: "'a list \<Rightarrow> int \<Rightarrow> 'a list" where
  "slice0 xs n = (if n < 0 then take (length xs - nat (- n)) xs else take (nat n) xs)"

text \<open>\<^verbatim>\<open>String.prototype.toLowerCase\<close> on ASCII text, and \<^verbatim>\<open>String.prototype.includes\<close>.\<close>

definition lower_char :: "char \<Rightarrow> char" where
  "lower_char c =
     (let n = (of_char c :: nat) in if 65 \<le> n \<and> n \<le> 90 then char_of (n + 32) else c)"

definition toLowerCase :: "string \<Rightarrow> string" where
  "toLowerCase s = map lower_char s"

fun str_includes :: "string \<Rightarrow> string \<Rightarrow> bool" where
  "str_includes [] q = (q = [])"
| "str_includes (c # cs) q = (prefix q (c # cs) \<or> str_includes cs q)"

section \<open>GalleryService\<close>

type_synonym gallery_store = "gallery_circuit list local_storage"

datatype gallery_filter = Recent | Popular | All

text \<open>
  The parameters \<^verbatim>\<open>filter\<close> and \<^verbatim>\<open>limit\<close> of \<^verbatim>\<open>getCircuits\<close> default to \<^verbatim>\<open>'recent'\<close> and
  20 at the call; here the caller passes both.
  \<^verbatim>\<open>circuits.sort(cmp)\<close> is a stable sort; \<^verbatim>\<open>(a, b) => b.timestamp - a.timestamp\<close> orders by
  timestamp, largest first, and \<^verbatim>\<open>(b.views + b.likes) - (a.views + a.likes)\<close> by the sum of
  the counters, largest first.
\<close>

definition sort_by_filter :: "gallery_filter \<Rightarrow> gallery_circuit list \<Rightarrow> gallery_circuit list" where
  "sort_by_filter f circuits =
     (case f of
        Recent \<Rightarrow> sort_key (\<lambda>c. - timestamp c) circuits
      | Popular \<Rightarrow> sort_key (\<lambda>c. - int (views c + likes c)) circuits
      | All \<Rightarrow> circuits)"

definition getCircuits ::
  "gallery_store \<Rightarrow> gallery_filter \<Rightarrow> int \<Rightarrow> (js_error + gallery_circuit list) \<times> gallery_store" where
  "getCircuits ls f limit =
     try_catch
       (case getItem_parse ls [] of
          Inl e \<Rightarrow> (Inl e, ls)
        | Inr circuits \<Rightarrow> (Inr (slice0 (sort_by_filter f circuits) limit), ls))
       (\<lambda>e s. (Inr [], s))"

definition addCircuit ::
  "gallery_store \<Rightarrow> shared_circuit \<Rightarrow> (js_error + gallery_circuit) \<times> gallery_store" where
  "addCircuit ls circuit =
     (let galleryCircuit = with_zero_counters circuit in
      try_catch
        (case getItem_parse ls [] of
           Inl e \<Rightarrow> (Inl e, ls)
         | Inr circuits \<Rightarrow>
             (let existing = findIndex (\<lambda>c. cid c = cid circuit) circuits;
                  circuits' = (if existing \<ge> 0 then circuits[nat existing := galleryCircuit]
                               else galleryCircuit # circuits);
                  trimmed = slice0 circuits' 100
              in case setItem_stringify ls trimmed of
                   (Inl e, ls') \<Rightarrow> (Inl e, ls')
                 | (Inr u, ls') \<Rightarrow> (Inr galleryCircuit, ls')))
        (\<lambda>e s. (Inr galleryCircuit, s)))"

text \<open>
  \<^verbatim>\<open>circuits.find(p)\<close> returns the first matching element, and \<^verbatim>\<open>circuit.views++\<close> updates
  it in place inside the array that is then written back.
\<close>

fun update_first :: "('a \<Rightarrow> bool) \<Rightarrow> ('a \<Rightarrow> 'a) \<Rightarrow> 'a list \<Rightarrow> 'a list option" where
  "update_first P g [] = None"
| "update_first P g (x # xs) =
     (if P x then Some (g x # xs) else map_option ((#) x) (update_first P g xs))"

definition increment ::
  "(gallery_circuit \<Rightarrow> gallery_circuit) \<Rightarrow> gallery_store \<Rightarrow> string \<Rightarrow> (js_error + unit) \<times> gallery_store" where
  "increment bump ls c =
     try_catch
       (case getItem_parse ls [] of
          Inl e \<Rightarrow> (Inl e, ls)
        | Inr circuits \<Rightarrow>
            (case update_first (\<lambda>x. cid x = c) bump circuits of
               None \<Rightarrow> (Inr (), ls)
             | Some circuits' \<Rightarrow> setItem_stringify ls circuits'))
       (\<lambda>e s. (Inr (), s))"

definition incrementViews :: "gallery_store \<Rightarrow> string \<Rightarrow> (js_error + unit) \<times> gallery_store" where
  "incrementViews ls c = increment (\<lambda>x. x\<lparr>views := views x + 1\<rparr>) ls c"

definition incrementLikes :: "gallery_store \<Rightarrow> string \<Rightarrow> (js_error + unit) \<times> gallery_store" where
  "incrementLikes ls c = increment (\<lambda>x. x\<lparr>likes := likes x + 1\<rparr>) ls c"

definition matches_query :: "string \<Rightarrow> gallery_circuit \<Rightarrow> bool" where
  "matches_query lowerQuery c =
     (str_includes (toLowerCase (title c)) lowerQuery
      \<or> str_includes (toLowerCase (description c)) lowerQuery
      \<or> list_ex (\<lambda>t. str_includes (toLowerCase t) lowerQuery) (tags c))"

definition searchCircuits ::
  "gallery_store \<Rightarrow> string \<Rightarrow> (js_error + gallery_circuit list) \<times> gallery_store" where
  "searchCircuits ls query =
     try_catch
       (case getItem_parse ls [] of
          Inl e \<Rightarrow> (Inl e, ls)
        | Inr circuits \<Rightarrow> (Inr (filter (matches_query (toLowerCase query)) circuits), ls))
       (\<lambda>e s. (Inr [], s))"

section \<open>IPFSService\<close>

definition IPFS_GATEWAYS :: "string list" where
  "IPFS_GATEWAYS =
     [''https://ipfs.io/ipfs/'',
      ''https://gateway.pinata.cloud/ipfs/'',
      ''https://cloudflare-ipfs.com/ipfs/'',
      ''https://dweb.link/ipfs/'']"

text \<open>
  A JavaScript string is a sequence of UTF-16 code units; \<^verbatim>\<open>charCodeAt\<close> reads one.
\<close>

type_synonym js_string = "16 word list"

subsection \<open>generateMockHash\<close>

text \<open>
  JavaScript numbers hold every integer below \<open>2 ^ 53\<close> exactly, so the arithmetic of the
  loop is integer arithmetic; \<^verbatim>\<open><<\<close> and \<^verbatim>\<open>&\<close> first convert their operands to signed
  32-bit integers (ToInt32) and return one.
\<close>

definition toInt32 :: "int \<Rightarrow> int" where
  "toInt32 x = sint (word_of_int x :: 32 word)"

definition shl32 :: "int \<Rightarrow> nat \<Rightarrow> int" where
  "shl32 x n = sint (push_bit n (word_of_int x :: 32 word))"

definition and32 :: "int \<Rightarrow> int \<Rightarrow> int" where
  "and32 x y = sint (and (word_of_int x :: 32 word) (word_of_int y))"

definition hash_step :: "int \<Rightarrow> 16 word \<Rightarrow> int" where
  "hash_step hash char =
     (let hash' = (shl32 hash 5 - hash) + uint char in and32 hash' hash')"

definition hex_digit :: "nat \<Rightarrow> char" where
  "hex_digit d = ''0123456789abcdef'' ! d"

text \<open>\<^verbatim>\<open>n.toString(16)\<close> for a non-negative integer \<open>n\<close>.\<close>

fun toString16 :: "nat \<Rightarrow> string" where
  "toString16 n =
     (if n < 16 then [hex_digit n] else toString16 (n div 16) @ [hex_digit (n mod 16)])"

definition padStart :: "nat \<Rightarrow> char \<Rightarrow> string \<Rightarrow> string" where
  "padStart n c s = replicate (n - length s) c @ s"

definition generateMockHash :: "js_string \<Rightarrow> string" where
  "generateMockHash content =
     (let hash = foldl hash_step 0 content
      in take 44 (padStart 44 (CHR ''0'') (toString16 (nat \<bar>hash\<bar>))))"

subsection \<open>The service, its state and its surroundings\<close>

text \<open>
  What \<^verbatim>\<open>download\<close> can hand back at run time. Its declared type is \<^verbatim>\<open>SharedCircuit\<close>, but
  \<^verbatim>\<open>circuits[cid]\<close> on the plain object that \<^verbatim>\<open>JSON.parse\<close> returns follows the prototype
  chain: for a name the object does not own, it finds the member of \<^verbatim>\<open>Object.prototype\<close> of
  that name, a built-in function or object, which is truthy.
\<close>

datatype js_object = Artifact shared_circuit | PrototypeMember string

text \<open>The names \<^verbatim>\<open>Object.prototype\<close> defines, as \<^verbatim>\<open>Object.getOwnPropertyNames\<close> lists them.\<close>

definition Object_prototype_members :: "string list" where
  "Object_prototype_members =
     [''constructor'', ''__defineGetter__'', ''__defineSetter__'', ''hasOwnProperty'',
      ''__lookupGetter__'', ''__lookupSetter__'', ''isPrototypeOf'', ''propertyIsEnumerable'',
      ''toString'', ''valueOf'', ''__proto__'', ''toLocaleString'']"

text \<open>
  \<^verbatim>\<open>circuits[cid]\<close>, where \<open>circuits\<close> are the properties the parsed object owns: an own
  property first, then the prototype, else \<^verbatim>\<open>undefined\<close>.
\<close>

definition property_get :: "(string \<rightharpoonup> shared_circuit) \<Rightarrow> string \<Rightarrow> js_object option" where
  "property_get circuits c =
     (case circuits c of
        Some data \<Rightarrow> Some (Artifact data)
      | None \<Rightarrow> if c \<in> set Object_prototype_members then Some (PrototypeMember c) else None)"

text \<open>
  The state of one \<^verbatim>\<open>IPFSService\<close>: the \<^verbatim>\<open>cache\<close> map (a \<^verbatim>\<open>Map\<close>, so its lookups are
  exact), and what localStorage holds under \<^verbatim>\<open>zk-playground-shared-circuits\<close>. Only
  \<^verbatim>\<open>upload\<close> writes that key, so text that parses there is an object from identifiers to
  artifacts, and a stored artifact is what JSON gives back for it.
\<close>

record ipfs_state =
  cache :: "string \<rightharpoonup> js_object"
  shared :: "(string \<rightharpoonup> shared_circuit) local_storage"

text \<open>
  The answer of \<^verbatim>\<open>fetch\<close>: \<open>Inl\<close> when the request itself fails (or times out), otherwise a
  response with its \<^verbatim>\<open>ok\<close> flag, its status text and what \<^verbatim>\<open>response.json()\<close> resolves to.
\<close>

record 'b response =
  ok :: bool
  statusText :: string
  json :: "js_error + 'b"

text \<open>
  What the service runs in: \<^verbatim>\<open>JSON.stringify\<close> on an artifact, the POST to the Infura
  \<^verbatim>\<open>/add\<close> endpoint (the body read is \<^verbatim>\<open>result.Hash\<close>), the GET to a gateway URL, and
  \<^verbatim>\<open>window.location.origin\<close> of the browser page.
\<close>

record ipfs_env =
  stringify :: "shared_circuit \<Rightarrow> js_string"
  infura_add :: "js_string \<Rightarrow> js_error + string response"
  gateway_fetch :: "string \<Rightarrow> js_error + shared_circuit response"
  origin :: string

definition upload ::
  "ipfs_env \<Rightarrow> ipfs_state \<Rightarrow> shared_circuit \<Rightarrow> (js_error + upload_result) \<times> ipfs_state" where
  "upload E s data =
     (let content = stringify E data in
      try_catch
        (case infura_add E content of
           Inl e \<Rightarrow> (Inl e, s)
         | Inr response \<Rightarrow>
             if \<not> ok response
             then (Inl (JsError (''IPFS upload failed: '' @ statusText response)), s)
             else (case json response of
                     Inl e \<Rightarrow> (Inl e, s)
                   | Inr hash \<Rightarrow>
                       (Inr \<lparr>upload_result.cid = hash, url = hd IPFS_GATEWAYS @ hash\<rparr>,
                        s\<lparr>cache := (cache s)(hash \<mapsto> Artifact data)\<rparr>)))
        (\<lambda>error s.
           let mockCid = ''Qm'' @ generateMockHash content;
               (u, s1) =
                 try_catch
                   (case getItem_parse (shared s) Map.empty of
                      Inl e \<Rightarrow> (Inl e, s)
                    | Inr circuits \<Rightarrow>
                        (case setItem_stringify (shared s) (circuits(mockCid \<mapsto> data)) of
                           (r, ls') \<Rightarrow> (r, s\<lparr>shared := ls'\<rparr>)))
                   (\<lambda>e s. (Inr (), s));
               s2 = s1\<lparr>cache := (cache s1)(mockCid \<mapsto> Artifact data)\<rparr>
           in (Inr \<lparr>upload_result.cid = mockCid, url = origin E @ ''/share/'' @ mockCid\<rparr>, s2)))"

text \<open>What one \<^verbatim>\<open>download\<close> call touches, in the order it touches it.\<close>

datatype access = CacheGet string | LocalStoreGet | GatewayFetch string

text \<open>The \<^verbatim>\<open>for (const gateway of IPFS_GATEWAYS)\<close> loop of \<^verbatim>\<open>download\<close>.\<close>

fun try_gateways ::
  "ipfs_env \<Rightarrow> ipfs_state \<Rightarrow> string \<Rightarrow> string list \<Rightarrow>
   (js_error + js_object) \<times> ipfs_state \<times> access list" where
  "try_gateways E s c [] =
     (Inl (JsError (''Failed to fetch circuit from IPFS: '' @ c)), s, [])"
| "try_gateways E s c (gateway # rest) =
     (let continue = (case try_gateways E s c rest of
                        (r, s', t) \<Rightarrow> (r, s', GatewayFetch (gateway @ c) # t))
      in case gateway_fetch E (gateway @ c) of
           Inl e \<Rightarrow> continue
         | Inr response \<Rightarrow>
             if ok response
             then (case json response of
                     Inl e \<Rightarrow> continue
                   | Inr data \<Rightarrow>
                       (Inr (Artifact data), s\<lparr>cache := (cache s)(c \<mapsto> Artifact data)\<rparr>,
                        [GatewayFetch (gateway @ c)]))
             else continue)"

definition download ::
  "ipfs_env \<Rightarrow> ipfs_state \<Rightarrow> string \<Rightarrow> (js_error + js_object) \<times> ipfs_state \<times> access list" where
  "download E s c =
     (case cache s c of
        Some cached \<Rightarrow> (Inr cached, s, [CacheGet c])
      | None \<Rightarrow>
          (let found = (case getItem_parse (shared s) Map.empty of
                          Inl e \<Rightarrow> None
                        | Inr circuits \<Rightarrow> property_get circuits c)
           in case found of
                Some data \<Rightarrow>
                  (Inr data, s\<lparr>cache := (cache s)(c \<mapsto> data)\<rparr>, [CacheGet c, LocalStoreGet])
              | None \<Rightarrow>
                  (case try_gateways E s c IPFS_GATEWAYS of
                     (r, s', t) \<Rightarrow> (r, s', CacheGet c # LocalStoreGet # t))))"

definition clearCache :: "ipfs_state \<Rightarrow> ipfs_state" where
  "clearCache s = s\<lparr>cache := Map.empty\<rparr>"

section \<open>Notions the properties are stated with\<close>

text \<open>The entries a reader of the gallery key finds; none when there is nothing usable.\<close>

definition entries :: "gallery_store \<Rightarrow> gallery_circuit list" where
  "entries ls = (case item ls of Stored circuits \<Rightarrow> circuits | _ \<Rightarrow> [])"

definition readable :: "'v local_storage \<Rightarrow> bool" where
  "readable ls = (case item ls of Unreadable \<Rightarrow> False | Unparseable \<Rightarrow> False | _ \<Rightarrow> True)"

text \<open>
  The remote provider is unreachable for a payload: the request fails, or the status is
  not 2xx, or the body is not JSON. These are the ways the \<^verbatim>\<open>try\<close> block of \<^verbatim>\<open>upload\<close>
  throws.
\<close>

definition upload_falls_back :: "ipfs_env \<Rightarrow> js_string \<Rightarrow> bool" where
  "upload_falls_back E content =
     (case infura_add E content of
        Inl e \<Rightarrow> True
      | Inr response \<Rightarrow> \<not> ok response \<or> isl (json response))"

text \<open>An exact hit in the durable local store.\<close>

definition local_store_hit :: "ipfs_state \<Rightarrow> string \<Rightarrow> shared_circuit option" where
  "local_store_hit s c = (case item (shared s) of Stored circuits \<Rightarrow> circuits c | _ \<Rightarrow> None)"

text \<open>
  The local store can be read, it has no entry for the identifier, and the identifier is
  the name of a member of \<^verbatim>\<open>Object.prototype\<close>.
\<close>

definition inherited_hit :: "ipfs_state \<Rightarrow> string \<Rightarrow> bool" where
  "inherited_hit s c =
     (readable (shared s) \<and> local_store_hit s c = None \<and> c \<in> set Object_prototype_members)"

text \<open>A gateway answers a URL when the request succeeds with a 2xx status and a JSON body.\<close>

definition gateway_answer :: "ipfs_env \<Rightarrow> string \<Rightarrow> shared_circuit option" where
  "gateway_answer E u =
     (case gateway_fetch E u of
        Inl e \<Rightarrow> None
      | Inr response \<Rightarrow>
          (if ok response then (case json response of Inl e \<Rightarrow> None | Inr data \<Rightarrow> Some data)
           else None))"

text \<open>
  The gateways in priority order up to and including the first one that answers, with its
  answer; all of them and no answer when none does.
\<close>

fun first_answer ::
  "ipfs_env \<Rightarrow> string \<Rightarrow> string list \<Rightarrow> shared_circuit option \<times> string list" where
  "first_answer E c [] = (None, [])"
| "first_answer E c (g # gs) =
     (case gateway_answer E (g @ c) of
        Some data \<Rightarrow> (Some data, [g])
      | None \<Rightarrow> (case first_answer E c gs of (r, tried) \<Rightarrow> (r, g # tried)))"

section \<open>Example inputs\<close>

definition liked_entry :: gallery_circuit where
  "liked_entry =
     \<lparr>cid = ''QmA'', title = ''Age check'', description = ''first version'', author = ''ann'',
      timestamp = 1700000000000, tags = [''age''], code = ''fn main() {}'',
      views = 5, likes = 3\<rparr>"

definition other_entry :: gallery_circuit where
  "other_entry =
     \<lparr>cid = ''QmB'', title = ''Merkle'', description = ''membership'', author = ''bob'',
      timestamp = 1700000000500, tags = [], code = ''fn main(x: Field) {}'',
      views = 1, likes = 0\<rparr>"

definition republished :: shared_circuit where
  "republished =
     \<lparr>cid = ''QmA'', title = ''Age check v2'', description = ''second version'', author = ''ann'',
      timestamp = 1700000001000, tags = [''age'', ''v2''], code = ''fn main(a: u8) {}''\<rparr>"

text \<open>
  A browser with no network: every request fails. The serialiser writes the title and the
  source text, one code unit per character.
\<close>

definition offline_env :: ipfs_env where
  "offline_env =
     \<lparr>stringify = (\<lambda>a. map (\<lambda>ch. of_nat (of_char ch)) (title a @ '':'' @ code a)),
      infura_add = (\<lambda>content. Inl (JsError ''Failed to fetch'')),
      gateway_fetch = (\<lambda>u. Inl (JsError ''TimeoutError'')),
      origin = ''http://localhost:3000''\<rparr>"

text \<open>The same browser when the second gateway alone serves \<open>republished\<close> under \<open>QmA\<close>.\<close>

definition pinata_env :: ipfs_env where
  "pinata_env =
     offline_env\<lparr>gateway_fetch :=
       (\<lambda>u. if u = ''https://gateway.pinata.cloud/ipfs/QmA''
            then Inr \<lparr>ok = True, statusText = ''OK'', json = Inr republished\<rparr>
            else Inl (JsError ''TimeoutError''))\<rparr>"

definition fresh_state :: ipfs_state where
  "fresh_state = \<lparr>cache = Map.empty, shared = \<lparr>item = Missing, accepts_writes = True\<rparr>\<rparr>"

text \<open>
  A ledger on which every request succeeds; the confirmed transaction carries the given
  program error, if any.
\<close>

definition answering_chain :: "string option \<Rightarrow> chain_env" where
  "answering_chain program_error =
     \<lparr>generate_keypair = ''VerifierAccount1'',
      new_PublicKey = Inr,
      getMinimumBalanceForRentExemption = (\<lambda>size. Inr (size * 6960 + 890880)),
      getLatestBlockhash = Inr (''blockhash1'', 1000),
      serialize = (\<lambda>tx. Inr [1]),
      sendRawTransaction = (\<lambda>raw. Inr ''signature1''),
      confirmTransaction = (\<lambda>sig bh h. Inr \<lparr>context_slot = 7, err = program_error\<rparr>),
      Date_now = 1700000000000\<rparr>"

definition devnet_service :: sunspot_service where
  "devnet_service = \<lparr>sunspot_service.network = Devnet\<rparr>"

definition wallet_signs :: "transaction \<Rightarrow> js_error + transaction" where
  "wallet_signs tx = Inr (tx\<lparr>signatures := signatures tx @ [''Wallet1'']\<rparr>)"

definition wallet_rejects :: "transaction \<Rightarrow> js_error + transaction" where
  "wallet_rejects tx = Inl (JsError ''User rejected the request.'')"

definition vk_config :: sunspot_deployment_config where
  "vk_config = \<lparr>verificationKey = [1, 2, 3],
                sunspot_deployment_config.network = Devnet, circuitName = ''age''\<rparr>"

definition proof_config :: verification_config where
  "proof_config = \<lparr>verification_config.programId = ''VerifierAccount1'', proof_data = [9, 9],
                   publicInputs = [''1'', ''18''], verification_config.network = Devnet\<rparr>"

section \<open>Properties of IPFSService\<close>

lemma upload_result_ok:
  "\<exists>u. fst (upload E s A) = Inr u
      \<and> cache (snd (upload E s A)) (upload_result.cid u) = Some (Artifact A)"
  by (auto simp: upload_def try_catch_def Let_def setItem_stringify_def getItem_parse_def
           split: sum.splits prod.splits slot.splits if_splits)

lemma upload_fallback_cid:
  assumes "upload_falls_back E (stringify E A)"
  shows "fst (upload E s A) =
           Inr \<lparr>upload_result.cid = ''Qm'' @ generateMockHash (stringify E A),
                url = origin E @ ''/share/'' @ ''Qm'' @ generateMockHash (stringify E A)\<rparr>"
  using assms
  by (auto simp: upload_def upload_falls_back_def try_catch_def Let_def setItem_stringify_def
                 getItem_parse_def
           split: sum.splits prod.splits slot.splits if_splits)

lemma try_gateways_first_answer:
  "try_gateways E s c gs =
     (case first_answer E c gs of
        (Some data, tried) \<Rightarrow>
          (Inr (Artifact data), s\<lparr>cache := (cache s)(c \<mapsto> Artifact data)\<rparr>,
           map (\<lambda>g. GatewayFetch (g @ c)) tried)
      | (None, tried) \<Rightarrow>
          (Inl (JsError (''Failed to fetch circuit from IPFS: '' @ c)), s,
           map (\<lambda>g. GatewayFetch (g @ c)) gs))"
  by (induction gs)
     (auto simp: gateway_answer_def Let_def split: sum.splits prod.splits option.splits if_splits)

lemma first_answer_None: "fst (first_answer E c gs) = None \<Longrightarrow> snd (first_answer E c gs) = gs"
  by (induction gs) (auto split: option.splits prod.splits)

lemma first_answer_prefix: "prefix (snd (first_answer E c gs)) gs"
  by (induction gs) (auto split: option.splits prod.splits)

lemma first_answer_skipped:
  "first_answer E c gs = (Some data, tried) \<Longrightarrow>
     tried \<noteq> [] \<and> gateway_answer E (last tried @ c) = Some data
     \<and> (\<forall>g \<in> set (butlast tried). gateway_answer E (g @ c) = None)"
  by (induction gs arbitrary: tried) (auto split: option.splits prod.splits)

lemma first_answer_all_fail:
  "fst (first_answer E c gs) = None \<Longrightarrow> \<forall>g \<in> set gs. gateway_answer E (g @ c) = None"
  by (induction gs) (auto split: option.splits prod.splits)

text \<open>
  What the local-store step of \<open>download\<close> finds: the stored artifact on an exact hit,
  the inherited member when there is no entry and the identifier names one, else nothing.
\<close>

lemma local_lookup_eq:
  "(case getItem_parse (shared s) Map.empty of
      Inl e \<Rightarrow> None
    | Inr circuits \<Rightarrow> property_get circuits c)
     = (case local_store_hit s c of
          Some a \<Rightarrow> Some (Artifact a)
        | None \<Rightarrow> if inherited_hit s c then Some (PrototypeMember c) else None)"
  by (simp add: getItem_parse_def local_store_hit_def inherited_hit_def readable_def
                property_get_def
           split: slot.splits option.splits)

text \<open>
  After a fallback upload on a local store that can be read and written, the artifact is
  also found when the cache has been emptied: the local store answers, and no gateway is
  asked.
\<close>

lemma upload_fallback_survives_clearCache:
  assumes "upload_falls_back E (stringify E A)"
      and "readable (shared s)" and "accepts_writes (shared s)"
  shows "fst (download E (clearCache (snd (upload E s A)))
                (''Qm'' @ generateMockHash (stringify E A))) = Inr (Artifact A)
       \<and> snd (snd (download E (clearCache (snd (upload E s A)))
                (''Qm'' @ generateMockHash (stringify E A))))
           = [CacheGet (''Qm'' @ generateMockHash (stringify E A)), LocalStoreGet]"
  using assms
  by (auto simp: upload_def upload_falls_back_def try_catch_def Let_def setItem_stringify_def
                 getItem_parse_def readable_def download_def clearCache_def property_get_def
           split: sum.splits prod.splits slot.splits if_splits)

text \<open>
  The cache only grows: \<open>download\<close> never drops or changes an entry that is there, and
  \<open>upload\<close> changes only the entry of the identifier it returns.
\<close>

lemma try_gateways_cache:
  "cache (fst (snd (try_gateways E s c gs))) = cache s
   \<or> (\<exists>data. cache (fst (snd (try_gateways E s c gs))) = (cache s)(c \<mapsto> data))"
  by (induction gs) (auto simp: Let_def split: sum.splits prod.splits if_splits)

lemma download_keeps_cache_entries:
  assumes "cache s k = Some v"
  shows "cache (fst (snd (download E s c))) k = Some v"
proof (cases "cache s c")
  case (Some a)
  then show ?thesis using assms by (simp add: download_def)
next
  case None
  then have "k \<noteq> c" using assms by auto
  then show ?thesis
    using assms None try_gateways_cache [of E s c IPFS_GATEWAYS]
    by (auto simp: download_def Let_def split: option.splits prod.splits sum.splits)
qed

lemma upload_keeps_other_cache_entries:
  assumes "cache s k = Some v" and "fst (upload E s B) = Inr u" and "upload_result.cid u \<noteq> k"
  shows "cache (snd (upload E s B)) k = Some v"
  using assms
  by (auto simp: upload_def try_catch_def Let_def setItem_stringify_def getItem_parse_def
           split: sum.splits prod.splits slot.splits if_splits)

text \<open>
  C1. For every artifact \<open>A\<close>, every state of the service and every behaviour of the
  remote provider and the gateways, \<open>upload\<close> returns an identifier, and \<open>download\<close> of
  that identifier right after it returns \<open>A\<close>. It does so from the in-memory cache alone:
  the only access is the cache lookup, so neither the local store nor any gateway is asked,
  whether the upload went to the remote provider or fell back to the local identifier.
\<close>

theorem upload_download_roundtrip:
  "\<exists>u. fst (upload E s A) = Inr u
      \<and> download E (snd (upload E s A)) (upload_result.cid u)
          = (Inr (Artifact A), snd (upload E s A), [CacheGet (upload_result.cid u)])"
proof -
  from upload_result_ok [of E s A] obtain u where
    "fst (upload E s A) = Inr u"
    "cache (snd (upload E s A)) (upload_result.cid u) = Some (Artifact A)"
    by blast
  then show ?thesis by (auto simp: download_def)
qed

theorem upload_download_roundtrip_witness:
  "fst (upload offline_env fresh_state republished)
     = Inr \<lparr>upload_result.cid = ''Qm'' @ generateMockHash (stringify offline_env republished),
            url = ''http://localhost:3000/share/Qm''
                  @ generateMockHash (stringify offline_env republished)\<rparr>
   \<and> fst (download offline_env (snd (upload offline_env fresh_state republished))
            (''Qm'' @ generateMockHash (stringify offline_env republished)))
       = Inr (Artifact republished)
   \<and> snd (snd (download offline_env (snd (upload offline_env fresh_state republished))
            (''Qm'' @ generateMockHash (stringify offline_env republished))))
       = [CacheGet (''Qm'' @ generateMockHash (stringify offline_env republished))]"
proof -
  have u: "fst (upload offline_env fresh_state republished)
     = Inr \<lparr>upload_result.cid = ''Qm'' @ generateMockHash (stringify offline_env republished),
            url = ''http://localhost:3000/share/Qm''
                  @ generateMockHash (stringify offline_env republished)\<rparr>"
    by (simp add: upload_def try_catch_def offline_env_def fresh_state_def getItem_parse_def
                  setItem_stringify_def Let_def)
  from upload_download_roundtrip [of offline_env fresh_state republished] u
  show ?thesis by auto
qed

text \<open>
  How \<open>download\<close> resolves an identifier. (1) A cache hit is returned with no other
  access. (2) On a cache miss, an exact hit in the local store is returned (and cached)
  with no gateway asked. (3) On a cache miss with no entry in a readable local store, an
  identifier that names a member of \<^verbatim>\<open>Object.prototype\<close> resolves to that member, which is
  returned and cached as if it had been stored, with no gateway asked. (4) Otherwise the
  gateways are asked in their priority order, each at most once, up to the first one that
  answers with a 2xx JSON response: its answer is returned (and cached), every gateway
  before it failed and was skipped, and none after it is asked. (5) The call fails only
  when cache and local store missed and none of the gateways answered, after each of the
  four gateways has been asked exactly once, in order.
\<close>

lemma download_resolution_steps:
  "(cache s c = Some v \<longrightarrow> download E s c = (Inr v, s, [CacheGet c]))
 \<and> (cache s c = None \<and> local_store_hit s c = Some a \<longrightarrow>
       download E s c = (Inr (Artifact a), s\<lparr>cache := (cache s)(c \<mapsto> Artifact a)\<rparr>,
                         [CacheGet c, LocalStoreGet]))
 \<and> (cache s c = None \<and> inherited_hit s c \<longrightarrow>
       download E s c = (Inr (PrototypeMember c), s\<lparr>cache := (cache s)(c \<mapsto> PrototypeMember c)\<rparr>,
                         [CacheGet c, LocalStoreGet]))
 \<and> (cache s c = None \<and> local_store_hit s c = None \<and> \<not> inherited_hit s c
       \<and> first_answer E c IPFS_GATEWAYS = (Some a, tried) \<longrightarrow>
       download E s c = (Inr (Artifact a), s\<lparr>cache := (cache s)(c \<mapsto> Artifact a)\<rparr>,
                         CacheGet c # LocalStoreGet # map (\<lambda>g. GatewayFetch (g @ c)) tried)
       \<and> prefix tried IPFS_GATEWAYS \<and> tried \<noteq> []
       \<and> gateway_answer E (last tried @ c) = Some a
       \<and> (\<forall>g \<in> set (butlast tried). gateway_answer E (g @ c) = None))
 \<and> (fst (download E s c) = Inl e \<longrightarrow>
       e = JsError (''Failed to fetch circuit from IPFS: '' @ c)
       \<and> cache s c = None \<and> local_store_hit s c = None \<and> \<not> inherited_hit s c
       \<and> (\<forall>g \<in> set IPFS_GATEWAYS. gateway_answer E (g @ c) = None)
       \<and> snd (snd (download E s c)) =
           [CacheGet c, LocalStoreGet,
            GatewayFetch (''https://ipfs.io/ipfs/'' @ c),
            GatewayFetch (''https://gateway.pinata.cloud/ipfs/'' @ c),
            GatewayFetch (''https://cloudflare-ipfs.com/ipfs/'' @ c),
            GatewayFetch (''https://dweb.link/ipfs/'' @ c)])"
proof (intro conjI impI)
  assume "cache s c = Some v"
  then show "download E s c = (Inr v, s, [CacheGet c])"
    by (simp add: download_def)
next
  assume "cache s c = None \<and> local_store_hit s c = Some a"
  then show "download E s c = (Inr (Artifact a), s\<lparr>cache := (cache s)(c \<mapsto> Artifact a)\<rparr>,
                               [CacheGet c, LocalStoreGet])"
    by (simp add: download_def local_lookup_eq)
next
  assume h: "cache s c = None \<and> inherited_hit s c"
  then have "local_store_hit s c = None"
    by (simp add: inherited_hit_def)
  with h show "download E s c = (Inr (PrototypeMember c),
                                  s\<lparr>cache := (cache s)(c \<mapsto> PrototypeMember c)\<rparr>,
                                  [CacheGet c, LocalStoreGet])"
    by (simp add: download_def local_lookup_eq)
next
  assume h: "cache s c = None \<and> local_store_hit s c = None \<and> \<not> inherited_hit s c
             \<and> first_answer E c IPFS_GATEWAYS = (Some a, tried)"
  then show "download E s c = (Inr (Artifact a), s\<lparr>cache := (cache s)(c \<mapsto> Artifact a)\<rparr>,
                         CacheGet c # LocalStoreGet # map (\<lambda>g. GatewayFetch (g @ c)) tried)"
    by (simp add: download_def local_lookup_eq try_gateways_first_answer)
  from h first_answer_prefix [of E c IPFS_GATEWAYS] show "prefix tried IPFS_GATEWAYS"
    by simp
  from h first_answer_skipped [of E c IPFS_GATEWAYS a tried]
  show "tried \<noteq> []" and "gateway_answer E (last tried @ c) = Some a"
    and "\<forall>g \<in> set (butlast tried). gateway_answer E (g @ c) = None"
    by simp_all
next
  assume f: "fst (download E s c) = Inl e"
  show miss: "cache s c = None"
    using f by (cases "cache s c") (simp_all add: download_def)
  show lmiss: "local_store_hit s c = None"
    using f miss by (cases "local_store_hit s c") (simp_all add: download_def local_lookup_eq)
  show imiss: "\<not> inherited_hit s c"
    using f miss lmiss by (cases "inherited_hit s c") (simp_all add: download_def local_lookup_eq)
  obtain r tried where fa: "first_answer E c IPFS_GATEWAYS = (r, tried)"
    by (cases "first_answer E c IPFS_GATEWAYS")
  have rn: "r = None"
    using f miss lmiss imiss fa
    by (cases r) (simp_all add: download_def local_lookup_eq try_gateways_first_answer)
  show "e = JsError (''Failed to fetch circuit from IPFS: '' @ c)"
    using f miss lmiss imiss fa rn
    by (simp add: download_def local_lookup_eq try_gateways_first_answer)
  show "\<forall>g \<in> set IPFS_GATEWAYS. gateway_answer E (g @ c) = None"
    using first_answer_all_fail [of E c IPFS_GATEWAYS] fa rn by simp
  show "snd (snd (download E s c)) =
           [CacheGet c, LocalStoreGet,
            GatewayFetch (''https://ipfs.io/ipfs/'' @ c),
            GatewayFetch (''https://gateway.pinata.cloud/ipfs/'' @ c),
            GatewayFetch (''https://cloudflare-ipfs.com/ipfs/'' @ c),
            GatewayFetch (''https://dweb.link/ipfs/'' @ c)]"
    using miss lmiss imiss fa rn
    by (simp add: download_def local_lookup_eq try_gateways_first_answer)
       (simp add: IPFS_GATEWAYS_def)
qed

text \<open>The steps on example inputs: a cache hit, a local hit, the second gateway, a failure.\<close>

lemma download_resolution_examples:
  "download offline_env (fresh_state\<lparr>cache := [''QmA'' \<mapsto> Artifact republished]\<rparr>) ''QmA''
     = (Inr (Artifact republished), fresh_state\<lparr>cache := [''QmA'' \<mapsto> Artifact republished]\<rparr>,
        [CacheGet ''QmA''])
   \<and> fst (download offline_env
            (fresh_state\<lparr>shared := \<lparr>item = Stored [''QmA'' \<mapsto> republished],
                                     accepts_writes = True\<rparr>\<rparr>) ''QmA'')
       = Inr (Artifact republished)
   \<and> snd (snd (download offline_env
            (fresh_state\<lparr>shared := \<lparr>item = Stored [''QmA'' \<mapsto> republished],
                                     accepts_writes = True\<rparr>\<rparr>) ''QmA''))
       = [CacheGet ''QmA'', LocalStoreGet]
   \<and> fst (download pinata_env fresh_state ''QmA'') = Inr (Artifact republished)
   \<and> snd (snd (download pinata_env fresh_state ''QmA''))
       = [CacheGet ''QmA'', LocalStoreGet,
          GatewayFetch ''https://ipfs.io/ipfs/QmA'',
          GatewayFetch ''https://gateway.pinata.cloud/ipfs/QmA'']
   \<and> fst (download offline_env fresh_state ''QmA'')
       = Inl (JsError ''Failed to fetch circuit from IPFS: QmA'')
   \<and> snd (snd (download offline_env fresh_state ''QmA''))
       = [CacheGet ''QmA'', LocalStoreGet,
          GatewayFetch ''https://ipfs.io/ipfs/QmA'',
          GatewayFetch ''https://gateway.pinata.cloud/ipfs/QmA'',
          GatewayFetch ''https://cloudflare-ipfs.com/ipfs/QmA'',
          GatewayFetch ''https://dweb.link/ipfs/QmA'']"
  by (simp add: download_def fresh_state_def getItem_parse_def property_get_def
                Object_prototype_members_def IPFS_GATEWAYS_def pinata_env_def offline_env_def
                Let_def)

text \<open>
  C7 (the code departs from it). The claim: for every identifier, \<open>download\<close> resolves
  from the cache on an exact hit, else from the local store on an exact hit, else from the
  gateways in their fixed order, and fails only after the local store and every gateway
  have been tried once. The code does so for every identifier but the names of the members
  of \<^verbatim>\<open>Object.prototype\<close>. For the identifier \<open>constructor\<close>, with an empty cache, nothing
  in the local store and every gateway failing, the lookup \<^verbatim>\<open>circuits[cid]\<close> finds the
  inherited member: \<open>download\<close> returns it as if it were a stored artifact and caches it,
  no gateway is asked and the call does not fail.
\<close>

theorem download_constructor_is_local_hit:
  "cache fresh_state ''constructor'' = None
   \<and> local_store_hit fresh_state ''constructor'' = None
   \<and> fst (first_answer offline_env ''constructor'' IPFS_GATEWAYS) = None
   \<and> download offline_env fresh_state ''constructor''
       = (Inr (PrototypeMember ''constructor''),
          fresh_state\<lparr>cache := [''constructor'' \<mapsto> PrototypeMember ''constructor'']\<rparr>,
          [CacheGet ''constructor'', LocalStoreGet])"
  by (simp add: download_def fresh_state_def getItem_parse_def property_get_def
                local_store_hit_def Object_prototype_members_def IPFS_GATEWAYS_def
                gateway_answer_def offline_env_def Let_def)

text \<open>
  C9. On the fallback path the identifier is \<open>Qm\<close> followed by \<open>generateMockHash\<close> of the
  serialised artifact, so it is a function of the serialisation alone: two artifacts with
  the same serialisation get the same identifier, whatever the state of the service at
  either upload.
\<close>

theorem fallback_cid_deterministic:
  assumes "stringify E A = stringify E B"
      and "upload_falls_back E (stringify E A)"
  shows "\<exists>u v. fst (upload E s A) = Inr u \<and> fst (upload E s' B) = Inr v
            \<and> upload_result.cid u = upload_result.cid v
            \<and> upload_result.cid u = ''Qm'' @ generateMockHash (stringify E A)"
  using upload_fallback_cid [of E A s] upload_fallback_cid [of E B s'] assms by simp

theorem fallback_cid_deterministic_witness:
  "upload_falls_back offline_env (stringify offline_env republished)
   \<and> (\<exists>u v. fst (upload offline_env fresh_state republished) = Inr u
          \<and> fst (upload offline_env (snd (upload offline_env fresh_state republished))
                   (republished\<lparr>author := ''bob''\<rparr>)) = Inr v
          \<and> upload_result.cid u = upload_result.cid v
          \<and> upload_result.cid u = ''Qm'' @ generateMockHash (stringify offline_env republished))"
proof -
  have s: "stringify offline_env republished = stringify offline_env (republished\<lparr>author := ''bob''\<rparr>)"
    by (simp add: offline_env_def)
  have f: "upload_falls_back offline_env (stringify offline_env republished)"
    by (simp add: upload_falls_back_def offline_env_def)
  from fallback_cid_deterministic [OF s f] f show ?thesis
    by blast
qed

text \<open>The hash on a short payload: \<open>ab\<close> gives \<open>97 * 31 + 98 = 3105\<close>, in hexadecimal \<open>c21\<close>.\<close>

lemma generateMockHash_ab:
  "generateMockHash [97, 98] = ''00000000000000000000000000000000000000000c21''"
  by code_simp

text \<open>
  The hash is not injective: the payloads \<open>Aa\<close> and \<open>BB\<close> share it, and so do longer
  payloads that differ in these two characters only.
\<close>

lemma generateMockHash_collision:
  "generateMockHash [65, 97] = generateMockHash [66, 66]"
  by code_simp

section \<open>Properties of GalleryService\<close>

lemma findIndex_lower: "- 1 \<le> findIndex P xs"
  by (induction xs) (auto simp: Let_def)

lemma findIndex_absent: "findIndex P xs < 0 \<longleftrightarrow> (\<forall>x\<in>set xs. \<not> P x)"
  using findIndex_lower [of P] by (induction xs) (auto simp: Let_def)

lemma findIndex_first:
  "i < length xs \<Longrightarrow> P (xs ! i) \<Longrightarrow> (\<forall>j<i. \<not> P (xs ! j)) \<Longrightarrow> findIndex P xs = int i"
proof (induction xs arbitrary: i)
  case Nil
  then show ?case by simp
next
  case (Cons x xs)
  show ?case
  proof (cases i)
    case 0
    with Cons.prems show ?thesis by simp
  next
    case (Suc k)
    with Cons.prems have "\<not> P x" by auto
    moreover from Suc Cons.prems have "findIndex P xs = int k"
      by (intro Cons.IH) auto
    ultimately show ?thesis using Suc by (simp add: Let_def)
  qed
qed

lemma update_first_absent: "(\<forall>x\<in>set xs. \<not> P x) \<Longrightarrow> update_first P g xs = None"
  by (induction xs) auto

lemma update_first_first:
  "i < length xs \<Longrightarrow> P (xs ! i) \<Longrightarrow> (\<forall>j<i. \<not> P (xs ! j)) \<Longrightarrow>
   update_first P g xs = Some (xs[i := g (xs ! i)])"
proof (induction xs arbitrary: i)
  case Nil
  then show ?case by simp
next
  case (Cons x xs)
  show ?case
  proof (cases i)
    case 0
    with Cons.prems show ?thesis by simp
  next
    case (Suc k)
    with Cons.prems have "\<not> P x" by auto
    moreover from Suc Cons.prems have "update_first P g xs = Some (xs[k := g (xs ! k)])"
      by (intro Cons.IH) auto
    ultimately show ?thesis using Suc by simp
  qed
qed

lemma slice0_100: "slice0 xs 100 = take 100 xs"
  by (simp add: slice0_def)

lemma readable_getItem: "readable ls \<Longrightarrow> getItem_parse ls [] = Inr (entries ls)"
  by (simp add: readable_def getItem_parse_def entries_def split: slot.splits)

lemma unreadable_getItem: "\<not> readable ls \<Longrightarrow> \<exists>e. getItem_parse ls d = Inl e"
  by (simp add: readable_def getItem_parse_def split: slot.splits)

lemma unreadable_entries: "\<not> readable ls \<Longrightarrow> entries ls = []"
  by (simp add: readable_def entries_def split: slot.splits)

lemma addCircuit_returns: "fst (addCircuit ls A) = Inr (with_zero_counters A)"
  by (auto simp: addCircuit_def try_catch_def setItem_stringify_def Let_def
           split: sum.splits prod.splits)

lemma increment_absent:
  assumes "\<forall>x\<in>set (entries ls). cid x \<noteq> c"
  shows "increment bump ls c = (Inr (), ls)"
proof (cases "readable ls")
  case True
  then show ?thesis
    using assms update_first_absent [of "entries ls" "\<lambda>x. cid x = c" bump]
    by (simp add: increment_def try_catch_def readable_getItem)
next
  case False
  then show ?thesis
    using unreadable_getItem [of ls "[]"]
    by (auto simp: increment_def try_catch_def)
qed

lemma increment_present:
  assumes "i < length (entries ls)" and "cid (entries ls ! i) = c"
      and "\<forall>j<i. cid (entries ls ! j) \<noteq> c"
  shows "increment bump ls c =
           (Inr (), if accepts_writes ls
                    then ls\<lparr>item := Stored ((entries ls)[i := bump (entries ls ! i)])\<rparr> else ls)"
proof -
  have r: "readable ls"
    using assms(1) by (cases "readable ls") (simp_all add: unreadable_entries)
  have "update_first (\<lambda>x. cid x = c) bump (entries ls)
          = Some ((entries ls)[i := bump (entries ls ! i)])"
    using assms by (intro update_first_first) auto
  then show ?thesis
    using r by (simp add: increment_def try_catch_def readable_getItem setItem_stringify_def)
qed

text \<open>
  C2, as the claim states it, fails. The gallery holds one entry \<open>QmA\<close> with 5 views and 3
  likes; adding an artifact with the identifier \<open>QmA\<close> leaves one entry \<open>QmA\<close> whose
  counters are both 0, not 5 and 3.
\<close>

theorem addCircuit_counters_counterexample:
  "cid republished = cid liked_entry
   \<and> views liked_entry = 5 \<and> likes liked_entry = 3
   \<and> item (snd (addCircuit \<lparr>item = Stored [liked_entry], accepts_writes = True\<rparr> republished))
       = Stored [\<lparr>cid = ''QmA'', title = ''Age check v2'', description = ''second version'',
                  author = ''ann'', timestamp = 1700000001000, tags = [''age'', ''v2''],
                  code = ''fn main(a: u8) {}'', views = 0, likes = 0\<rparr>]"
  by (simp add: addCircuit_def try_catch_def getItem_parse_def setItem_stringify_def
                with_zero_counters_def slice0_def liked_entry_def republished_def Let_def)

text \<open>
  C2, amended. On a gallery that can be read and written, adding an artifact \<open>A\<close> returns
  the entry made of \<open>A\<close>'s fields with \<open>views = 0\<close> and \<open>likes = 0\<close>. When the gallery
  has an entry with \<open>A\<close>'s identifier, the first such entry is replaced, in its place, by
  that new entry: every field is \<open>A\<close>'s and both counters are reset to 0. When it has
  none, the new entry is inserted at the front. In both cases the collection is then
  truncated to its first 100 entries.
\<close>

theorem addCircuit_replaces_and_resets:
  "readable ls \<and> accepts_writes ls \<longrightarrow>
     fst (addCircuit ls A) = Inr (with_zero_counters A)
   \<and> views (with_zero_counters A) = 0 \<and> likes (with_zero_counters A) = 0
   \<and> shared_circuit.truncate (with_zero_counters A) = A
   \<and> (i < length (entries ls) \<and> cid (entries ls ! i) = cid A
        \<and> (\<forall>j<i. cid (entries ls ! j) \<noteq> cid A) \<longrightarrow>
          entries (snd (addCircuit ls A)) = take 100 ((entries ls)[i := with_zero_counters A]))
   \<and> ((\<forall>x\<in>set (entries ls). cid x \<noteq> cid A) \<longrightarrow>
          entries (snd (addCircuit ls A)) = take 100 (with_zero_counters A # entries ls))
   \<and> length (entries (snd (addCircuit ls A))) \<le> 100"
proof (intro impI conjI)
  assume h: "readable ls \<and> accepts_writes ls"
  show "fst (addCircuit ls A) = Inr (with_zero_counters A)"
    by (rule addCircuit_returns)
  show "views (with_zero_counters A) = 0" and "likes (with_zero_counters A) = 0"
    by (simp_all add: with_zero_counters_def)
  show "shared_circuit.truncate (with_zero_counters A) = A"
    by (simp add: with_zero_counters_def shared_circuit.truncate_def)
  show "entries (snd (addCircuit ls A)) = take 100 ((entries ls)[i := with_zero_counters A])"
    if "i < length (entries ls) \<and> cid (entries ls ! i) = cid A
        \<and> (\<forall>j<i. cid (entries ls ! j) \<noteq> cid A)"
  proof -
    have "findIndex (\<lambda>c. cid c = cid A) (entries ls) = int i"
      using that by (intro findIndex_first) auto
    then show ?thesis
      using h by (simp add: addCircuit_def try_catch_def setItem_stringify_def Let_def
                            slice0_100 readable_getItem entries_def)
  qed
  show "entries (snd (addCircuit ls A)) = take 100 (with_zero_counters A # entries ls)"
    if "\<forall>x\<in>set (entries ls). cid x \<noteq> cid A"
  proof -
    have "findIndex (\<lambda>c. cid c = cid A) (entries ls) < 0"
      using that by (simp add: findIndex_absent)
    then show ?thesis
      using h by (simp add: addCircuit_def try_catch_def setItem_stringify_def Let_def
                            slice0_100 readable_getItem entries_def)
  qed
  show "length (entries (snd (addCircuit ls A))) \<le> 100"
    using h by (simp add: addCircuit_def try_catch_def setItem_stringify_def Let_def
                          slice0_100 readable_getItem entries_def)
qed

theorem addCircuit_replaces_and_resets_witness:
  "readable \<lparr>item = Stored [other_entry, liked_entry], accepts_writes = True\<rparr>
   \<and> cid (entries \<lparr>item = Stored [other_entry, liked_entry], accepts_writes = True\<rparr> ! 1)
       = cid republished
   \<and> entries (snd (addCircuit \<lparr>item = Stored [other_entry, liked_entry], accepts_writes = True\<rparr>
                      republished))
       = [other_entry, with_zero_counters republished]
   \<and> cid other_entry \<noteq> cid republished
   \<and> entries (snd (addCircuit \<lparr>item = Stored [other_entry], accepts_writes = True\<rparr> republished))
       = [with_zero_counters republished, other_entry]"
proof -
  let ?ls = "\<lparr>item = Stored [other_entry, liked_entry], accepts_writes = True\<rparr>"
  let ?ls' = "\<lparr>item = Stored [other_entry], accepts_writes = True\<rparr>"
  have r: "readable ?ls \<and> accepts_writes ?ls" and r': "readable ?ls' \<and> accepts_writes ?ls'"
    by (simp_all add: readable_def)
  have p: "1 < length (entries ?ls) \<and> cid (entries ?ls ! 1) = cid republished
           \<and> (\<forall>j<1. cid (entries ?ls ! j) \<noteq> cid republished)"
    by (simp add: entries_def liked_entry_def other_entry_def republished_def)
  have a: "\<forall>x\<in>set (entries ?ls'). cid x \<noteq> cid republished"
    by (simp add: entries_def other_entry_def republished_def)
  from addCircuit_replaces_and_resets [of ?ls republished 1] r p
  have 1: "entries (snd (addCircuit ?ls republished))
             = take 100 ((entries ?ls)[1 := with_zero_counters republished])"
    by blast
  from addCircuit_replaces_and_resets [of ?ls' republished 0] r' a
  have 2: "entries (snd (addCircuit ?ls' republished))
             = take 100 (with_zero_counters republished # entries ?ls')"
    by blast
  have d: "cid other_entry \<noteq> cid republished"
    by (simp add: other_entry_def republished_def)
  show ?thesis
    using r p d 1 2 by (simp add: entries_def)
qed

text \<open>
  C8. For an identifier that no entry of the gallery has, \<open>incrementViews\<close> and
  \<open>incrementLikes\<close> return normally and leave the persisted collection as it was: no
  entry is created. For an identifier that is present, the first entry that has it gets
  its \<open>views\<close> (respectively \<open>likes\<close>) counter raised by one and nothing else changes;
  when the write is refused, nothing changes at all.
\<close>

theorem increment_frame:
  "((\<forall>x\<in>set (entries ls). cid x \<noteq> c) \<longrightarrow>
       incrementViews ls c = (Inr (), ls) \<and> incrementLikes ls c = (Inr (), ls))
 \<and> (i < length (entries ls) \<and> cid (entries ls ! i) = c \<and> (\<forall>j<i. cid (entries ls ! j) \<noteq> c) \<longrightarrow>
       incrementViews ls c =
         (Inr (), if accepts_writes ls
                  then ls\<lparr>item := Stored ((entries ls)
                              [i := (entries ls ! i)\<lparr>views := views (entries ls ! i) + 1\<rparr>])\<rparr>
                  else ls)
     \<and> incrementLikes ls c =
         (Inr (), if accepts_writes ls
                  then ls\<lparr>item := Stored ((entries ls)
                              [i := (entries ls ! i)\<lparr>likes := likes (entries ls ! i) + 1\<rparr>])\<rparr>
                  else ls))"
proof (intro conjI impI)
  assume "\<forall>x\<in>set (entries ls). cid x \<noteq> c"
  then show "incrementViews ls c = (Inr (), ls)" and "incrementLikes ls c = (Inr (), ls)"
    by (simp_all add: incrementViews_def incrementLikes_def increment_absent)
next
  assume h: "i < length (entries ls) \<and> cid (entries ls ! i) = c
             \<and> (\<forall>j<i. cid (entries ls ! j) \<noteq> c)"
  show "incrementViews ls c =
         (Inr (), if accepts_writes ls
                  then ls\<lparr>item := Stored ((entries ls)
                              [i := (entries ls ! i)\<lparr>views := views (entries ls ! i) + 1\<rparr>])\<rparr>
                  else ls)"
    unfolding incrementViews_def using h by (intro increment_present) auto
  show "incrementLikes ls c =
         (Inr (), if accepts_writes ls
                  then ls\<lparr>item := Stored ((entries ls)
                              [i := (entries ls ! i)\<lparr>likes := likes (entries ls ! i) + 1\<rparr>])\<rparr>
                  else ls)"
    unfolding incrementLikes_def using h by (intro increment_present) auto
qed

theorem increment_frame_witness:
  "cid other_entry \<noteq> ''QmZ'' \<and> cid liked_entry \<noteq> ''QmZ''
   \<and> incrementViews \<lparr>item = Stored [other_entry, liked_entry], accepts_writes = True\<rparr> ''QmZ''
       = (Inr (), \<lparr>item = Stored [other_entry, liked_entry], accepts_writes = True\<rparr>)
   \<and> incrementLikes \<lparr>item = Stored [other_entry, liked_entry], accepts_writes = True\<rparr> ''QmZ''
       = (Inr (), \<lparr>item = Stored [other_entry, liked_entry], accepts_writes = True\<rparr>)
   \<and> cid (entries \<lparr>item = Stored [other_entry, liked_entry], accepts_writes = True\<rparr> ! 1) = ''QmA''
   \<and> incrementViews \<lparr>item = Stored [other_entry, liked_entry], accepts_writes = True\<rparr> ''QmA''
       = (Inr (), \<lparr>item = Stored [other_entry, liked_entry\<lparr>views := 6\<rparr>], accepts_writes = True\<rparr>)
   \<and> incrementLikes \<lparr>item = Stored [other_entry, liked_entry], accepts_writes = True\<rparr> ''QmA''
       = (Inr (), \<lparr>item = Stored [other_entry, liked_entry\<lparr>likes := 4\<rparr>], accepts_writes = True\<rparr>)"
proof -
  let ?ls = "\<lparr>item = Stored [other_entry, liked_entry], accepts_writes = True\<rparr>"
  have a: "\<forall>x\<in>set (entries ?ls). cid x \<noteq> ''QmZ''"
    by (simp add: entries_def liked_entry_def other_entry_def)
  have p: "1 < length (entries ?ls) \<and> cid (entries ?ls ! 1) = ''QmA''
           \<and> (\<forall>j<1. cid (entries ?ls ! j) \<noteq> ''QmA'')"
    by (simp add: entries_def liked_entry_def other_entry_def)
  from increment_frame [of ?ls "''QmZ''" 0] a
  have 1: "incrementViews ?ls ''QmZ'' = (Inr (), ?ls) \<and> incrementLikes ?ls ''QmZ'' = (Inr (), ?ls)"
    by blast
  from increment_frame [of ?ls "''QmA''" 1] p
  have 2: "incrementViews ?ls ''QmA'' =
             (Inr (), if accepts_writes ?ls
                      then ?ls\<lparr>item := Stored ((entries ?ls)
                                  [1 := (entries ?ls ! 1)\<lparr>views := views (entries ?ls ! 1) + 1\<rparr>])\<rparr>
                      else ?ls)
         \<and> incrementLikes ?ls ''QmA'' =
             (Inr (), if accepts_writes ?ls
                      then ?ls\<lparr>item := Stored ((entries ?ls)
                                  [1 := (entries ?ls ! 1)\<lparr>likes := likes (entries ?ls ! 1) + 1\<rparr>])\<rparr>
                      else ?ls)"
    by blast
  have v: "views liked_entry + 1 = 6" and l: "likes liked_entry + 1 = 4"
    by (simp_all add: liked_entry_def)
  have d: "cid other_entry \<noteq> ''QmZ'' \<and> cid liked_entry \<noteq> ''QmZ''"
    by (simp add: liked_entry_def other_entry_def)
  show ?thesis
    using d p 1 2 v l by (simp add: entries_def)
qed

text \<open>
  C10. No operation of \<open>GalleryService\<close> raises to its caller, whatever is persisted and
  whether or not the store accepts writes: \<open>getCircuits\<close> and \<open>searchCircuits\<close> return a
  list, \<open>addCircuit\<close> returns the new entry with \<open>views = 0\<close> and \<open>likes = 0\<close>, and the
  increment operations return normally. When the persisted collection is missing,
  unreadable or unparseable, the two queries return the empty list and the increments
  change nothing.
\<close>

theorem gallery_operations_total:
  "(\<exists>r. fst (getCircuits ls f limit) = Inr r)
 \<and> (\<exists>r. fst (searchCircuits ls q) = Inr r)
 \<and> fst (addCircuit ls A) = Inr (with_zero_counters A)
 \<and> views (with_zero_counters A) = 0 \<and> likes (with_zero_counters A) = 0
 \<and> fst (incrementViews ls c) = Inr ()
 \<and> fst (incrementLikes ls c) = Inr ()
 \<and> (item ls = Missing \<or> item ls = Unreadable \<or> item ls = Unparseable \<longrightarrow>
      fst (getCircuits ls f limit) = Inr [] \<and> fst (searchCircuits ls q) = Inr []
    \<and> snd (incrementViews ls c) = ls \<and> snd (incrementLikes ls c) = ls)"
proof (intro conjI impI)
  show "\<exists>r. fst (getCircuits ls f limit) = Inr r"
    by (auto simp: getCircuits_def try_catch_def split: sum.splits)
  show "\<exists>r. fst (searchCircuits ls q) = Inr r"
    by (auto simp: searchCircuits_def try_catch_def split: sum.splits)
  show "fst (addCircuit ls A) = Inr (with_zero_counters A)"
    by (rule addCircuit_returns)
  show "views (with_zero_counters A) = 0" and "likes (with_zero_counters A) = 0"
    by (simp_all add: with_zero_counters_def)
  show "fst (incrementViews ls c) = Inr ()"
    by (auto simp: incrementViews_def increment_def try_catch_def setItem_stringify_def
             split: sum.splits option.splits)
  show "fst (incrementLikes ls c) = Inr ()"
    by (auto simp: incrementLikes_def increment_def try_catch_def setItem_stringify_def
             split: sum.splits option.splits)
next
  assume h: "item ls = Missing \<or> item ls = Unreadable \<or> item ls = Unparseable"
  then show "fst (getCircuits ls f limit) = Inr []"
    by (auto simp: getCircuits_def try_catch_def getItem_parse_def sort_by_filter_def slice0_def
             split: gallery_filter.splits)
  from h show "fst (searchCircuits ls q) = Inr []"
    by (auto simp: searchCircuits_def try_catch_def getItem_parse_def)
  from h have "\<forall>x\<in>set (entries ls). cid x \<noteq> c"
    by (auto simp: entries_def)
  then show "snd (incrementViews ls c) = ls" and "snd (incrementLikes ls c) = ls"
    by (simp_all add: incrementViews_def incrementLikes_def increment_absent)
qed

theorem gallery_operations_total_witness:
  "item \<lparr>item = Unparseable, accepts_writes = False\<rparr> = Unparseable
   \<and> fst (getCircuits \<lparr>item = Unparseable, accepts_writes = False\<rparr> Popular 2) = Inr []
   \<and> fst (searchCircuits \<lparr>item = Unparseable, accepts_writes = False\<rparr> ''age'') = Inr []
   \<and> fst (addCircuit \<lparr>item = Unparseable, accepts_writes = False\<rparr> republished)
       = Inr (with_zero_counters republished)
   \<and> incrementViews \<lparr>item = Unparseable, accepts_writes = False\<rparr> ''QmA''
       = (Inr (), \<lparr>item = Unparseable, accepts_writes = False\<rparr>)
   \<and> incrementLikes \<lparr>item = Unparseable, accepts_writes = False\<rparr> ''QmA''
       = (Inr (), \<lparr>item = Unparseable, accepts_writes = False\<rparr>)"
proof -
  let ?ls = "\<lparr>item = Unparseable, accepts_writes = False\<rparr> :: gallery_store"
  have h: "item ?ls = Missing \<or> item ?ls = Unreadable \<or> item ?ls = Unparseable"
    by simp
  from gallery_operations_total [of ?ls Popular 2 "''age''" republished "''QmA''"] h
  show ?thesis
    by (simp add: prod_eq_iff)
qed

section \<open>Properties of SunspotService\<close>

lemma progress_values_append:
  "progress_values (xs @ ys) = progress_values xs @ progress_values ys"
  by (induction xs rule: progress_values.induct) auto

lemma progress_values_emit: "progress_values (emit cb p m) = (if cb then [p] else [])"
  by (simp add: emit_def)

text \<open>
  A call of \<open>deployVerifier\<close> that returns a result has gone through every step: the trace
  is the full sequence, and the signer, the serialisation and the submission succeeded.
\<close>

lemma deployVerifier_success_trace:
  assumes "fst (deployVerifier svc E config w sign cb) = Inr r"
  shows "\<exists>tx raw sig.
     snd (deployVerifier svc E config w sign cb) =
       emit cb 10 ''Preparing deployment...'' @
       emit cb 20 ''Calculating deployment cost...'' @
       [RentExemptionRequest (length (verificationKey config) + 64)] @
       emit cb 30 ''Creating verifier account...'' @
       emit cb 40 ''Building transaction...'' @
       [BlockhashRequest] @
       emit cb 50 ''Signing transaction...'' @
       [SignRequest tx] @
       emit cb 70 ''Sending transaction...'' @
       [SendRequest raw] @
       emit cb 85 ''Confirming transaction...'' @
       [ConfirmRequest sig] @
       emit cb 100 ''Deployment complete!''
     \<and> (\<exists>signed. sign tx = Inr signed \<and> serialize E signed = Inr raw)
     \<and> sendRawTransaction E raw = Inr sig
     \<and> sunspot_deployment_result.transactionSignature r = sig"
  using assms
  by (auto simp: deployVerifier_def Let_def split: sum.splits prod.splits)

lemma verifyProofOnChain_success_trace:
  assumes "fst (verifyProofOnChain svc E config w sign cb) = Inr r"
  shows "\<exists>tx raw sig.
     snd (verifyProofOnChain svc E config w sign cb) =
       emit cb 10 ''Preparing verification...'' @
       emit cb 30 ''Building verification transaction...'' @
       [BlockhashRequest] @
       emit cb 50 ''Signing verification transaction...'' @
       [SignRequest tx] @
       emit cb 70 ''Sending verification transaction...'' @
       [SendRequest raw] @
       emit cb 85 ''Confirming verification...'' @
       [ConfirmRequest sig] @
       emit cb 100 ''Verification complete!''
     \<and> (\<exists>signed. sign tx = Inr signed \<and> serialize E signed = Inr raw)
     \<and> sendRawTransaction E raw = Inr sig
     \<and> on_chain_verification_result.transactionSignature r = sig"
  using assms
  by (auto simp: verifyProofOnChain_def Let_def split: sum.splits prod.splits)

text \<open>
  Whatever the ledger reports at confirmation, a verification call that returns a record
  returns one that says the proof is valid.
\<close>

lemma verifyProofOnChain_always_valid:
  "fst (verifyProofOnChain svc E config w sign cb) = Inr r \<Longrightarrow> isValid r"
  by (auto simp: verifyProofOnChain_def Let_def split: sum.splits prod.splits)

lemma example_deploy_succeeds:
  "\<exists>r. fst (deployVerifier devnet_service (answering_chain None) vk_config ''Wallet1''
              wallet_signs True) = Inr r"
  by (simp add: deployVerifier_def answering_chain_def wallet_signs_def Let_def)

lemma example_verify_succeeds:
  "\<exists>r. fst (verifyProofOnChain devnet_service (answering_chain None) proof_config ''Wallet1''
              wallet_signs True) = Inr r"
  by (simp add: verifyProofOnChain_def answering_chain_def wallet_signs_def proof_config_def
                Let_def)

text \<open>
  C3 (the code departs from it). The claim: a verification call that reaches confirmation
  decides the validity it returns from the confirmed transaction's on-chain output.
  The code does not: on a ledger whose confirmation of the transaction carries the program
  error \<open>InstructionError\<close>, the call still returns a record with \<open>isValid = True\<close>.
  The response of \<^verbatim>\<open>confirmTransaction\<close> is awaited and dropped.
\<close>

theorem verifyProofOnChain_valid_despite_program_error:
  "confirmTransaction (answering_chain (Some ''InstructionError'')) ''signature1'' ''blockhash1'' 1000
     = Inr \<lparr>context_slot = 7, err = Some ''InstructionError''\<rparr>
   \<and> fst (verifyProofOnChain devnet_service (answering_chain (Some ''InstructionError''))
            proof_config ''Wallet1'' wallet_signs True)
     = Inr \<lparr>isValid = True,
            on_chain_verification_result.transactionSignature = ''signature1'',
            on_chain_verification_result.network = Devnet,
            timestamp = 1700000000000\<rparr>"
  by (simp add: verifyProofOnChain_def answering_chain_def wallet_signs_def proof_config_def
                devnet_service_def Let_def)

text \<open>
  C4. During one successful deployment call, and during one successful verification call,
  the progress values passed to the callback are non-decreasing and contain 100 exactly
  once, as the last value.
\<close>

theorem progress_nondecreasing_100_last:
  assumes "onProgress"
  shows "(fst (deployVerifier svc E dconfig w sign onProgress) = Inr r \<longrightarrow>
            sorted (progress_values (snd (deployVerifier svc E dconfig w sign onProgress)))
          \<and> count_list (progress_values (snd (deployVerifier svc E dconfig w sign onProgress))) 100 = 1
          \<and> last (progress_values (snd (deployVerifier svc E dconfig w sign onProgress))) = 100)
       \<and> (fst (verifyProofOnChain svc E vconfig w sign onProgress) = Inr r' \<longrightarrow>
            sorted (progress_values (snd (verifyProofOnChain svc E vconfig w sign onProgress)))
          \<and> count_list (progress_values (snd (verifyProofOnChain svc E vconfig w sign onProgress))) 100 = 1
          \<and> last (progress_values (snd (verifyProofOnChain svc E vconfig w sign onProgress))) = 100)"
proof (intro conjI impI)
  assume ok: "fst (deployVerifier svc E dconfig w sign onProgress) = Inr r"
  have ps: "progress_values (snd (deployVerifier svc E dconfig w sign onProgress))
              = [10, 20, 30, 40, 50, 70, 85, 100]"
    using deployVerifier_success_trace [OF ok] assms
    by (auto simp: progress_values_append progress_values_emit)
  show "sorted (progress_values (snd (deployVerifier svc E dconfig w sign onProgress)))"
    by (simp add: ps)
  show "count_list (progress_values (snd (deployVerifier svc E dconfig w sign onProgress))) 100 = 1"
    by (simp add: ps)
  show "last (progress_values (snd (deployVerifier svc E dconfig w sign onProgress))) = 100"
    by (simp add: ps)
next
  assume ok: "fst (verifyProofOnChain svc E vconfig w sign onProgress) = Inr r'"
  have ps: "progress_values (snd (verifyProofOnChain svc E vconfig w sign onProgress))
              = [10, 30, 50, 70, 85, 100]"
    using verifyProofOnChain_success_trace [OF ok] assms
    by (auto simp: progress_values_append progress_values_emit)
  show "sorted (progress_values (snd (verifyProofOnChain svc E vconfig w sign onProgress)))"
    by (simp add: ps)
  show "count_list (progress_values (snd (verifyProofOnChain svc E vconfig w sign onProgress))) 100 = 1"
    by (simp add: ps)
  show "last (progress_values (snd (verifyProofOnChain svc E vconfig w sign onProgress))) = 100"
    by (simp add: ps)
qed

theorem progress_nondecreasing_100_last_witness:
  "(\<exists>r. fst (deployVerifier devnet_service (answering_chain None) vk_config ''Wallet1''
              wallet_signs True) = Inr r)
   \<and> sorted (progress_values (snd (deployVerifier devnet_service (answering_chain None)
                vk_config ''Wallet1'' wallet_signs True)))
   \<and> count_list (progress_values (snd (deployVerifier devnet_service (answering_chain None)
                vk_config ''Wallet1'' wallet_signs True))) 100 = 1
   \<and> last (progress_values (snd (deployVerifier devnet_service (answering_chain None)
                vk_config ''Wallet1'' wallet_signs True))) = 100
   \<and> (\<exists>r. fst (verifyProofOnChain devnet_service (answering_chain None) proof_config ''Wallet1''
              wallet_signs True) = Inr r)
   \<and> sorted (progress_values (snd (verifyProofOnChain devnet_service (answering_chain None)
                proof_config ''Wallet1'' wallet_signs True)))
   \<and> count_list (progress_values (snd (verifyProofOnChain devnet_service (answering_chain None)
                proof_config ''Wallet1'' wallet_signs True))) 100 = 1
   \<and> last (progress_values (snd (verifyProofOnChain devnet_service (answering_chain None)
                proof_config ''Wallet1'' wallet_signs True))) = 100"
proof -
  obtain r where d: "fst (deployVerifier devnet_service (answering_chain None) vk_config ''Wallet1''
                           wallet_signs True) = Inr r"
    using example_deploy_succeeds by blast
  obtain r' where v: "fst (verifyProofOnChain devnet_service (answering_chain None) proof_config
                            ''Wallet1'' wallet_signs True) = Inr r'"
    using example_verify_succeeds by blast
  show ?thesis
    using progress_nondecreasing_100_last
            [of True devnet_service "answering_chain None" vk_config "''Wallet1''" wallet_signs r
                proof_config r'] d v
    by simp
qed



text \<open>
  C6. In every deployment call in which the external signing function is asked to sign
  and rejects, the call fails with the signer's error, so no deployment record is returned,
  and the request to the signer is the last thing the call does: the callback receives no
  70, no 85 (Submitted) and no 100 (Confirmed).
\<close>

theorem signer_rejection_aborts:
  assumes "SignRequest tx \<in> set (snd (deployVerifier svc E config w sign onProgress))"
      and "sign tx = Inl e"
  shows "fst (deployVerifier svc E config w sign onProgress) = Inl e
       \<and> last (snd (deployVerifier svc E config w sign onProgress)) = SignRequest tx
       \<and> 70 \<notin> set (progress_values (snd (deployVerifier svc E config w sign onProgress)))
       \<and> 85 \<notin> set (progress_values (snd (deployVerifier svc E config w sign onProgress)))
       \<and> 100 \<notin> set (progress_values (snd (deployVerifier svc E config w sign onProgress)))"
  using assms
  by (auto simp: deployVerifier_def Let_def emit_def progress_values_append
           split: sum.splits prod.splits if_splits)

theorem signer_rejection_aborts_witness:
  "SignRequest
     \<lparr>instructions = [CreateAccount ''Wallet1'' ''VerifierAccount1'' 1357200 67
                        SystemProgram_programId],
      recentBlockhash = Some ''blockhash1'', feePayer = Some ''Wallet1'',
      signatures = [''VerifierAccount1'']\<rparr>
     \<in> set (snd (deployVerifier devnet_service (answering_chain None) vk_config ''Wallet1''
                   wallet_rejects True))
   \<and> fst (deployVerifier devnet_service (answering_chain None) vk_config ''Wallet1''
            wallet_rejects True) = Inl (JsError ''User rejected the request.'')
   \<and> progress_values (snd (deployVerifier devnet_service (answering_chain None) vk_config
                              ''Wallet1'' wallet_rejects True)) = [10, 20, 30, 40, 50]"
proof -
  let ?tx = "\<lparr>instructions = [CreateAccount ''Wallet1'' ''VerifierAccount1'' 1357200 67
                                SystemProgram_programId],
              recentBlockhash = Some ''blockhash1'', feePayer = Some ''Wallet1'',
              signatures = [''VerifierAccount1'']\<rparr>"
  have t: "snd (deployVerifier devnet_service (answering_chain None) vk_config ''Wallet1''
                  wallet_rejects True)
            = [Progress 10 ''Preparing deployment...'',
               Progress 20 ''Calculating deployment cost...'',
               RentExemptionRequest 67,
               Progress 30 ''Creating verifier account...'',
               Progress 40 ''Building transaction...'',
               BlockhashRequest,
               Progress 50 ''Signing transaction...'',
               SignRequest ?tx]"
    by (simp add: deployVerifier_def answering_chain_def wallet_rejects_def vk_config_def
                  emit_def Let_def)
  have m: "SignRequest ?tx \<in> set (snd (deployVerifier devnet_service (answering_chain None)
                                          vk_config ''Wallet1'' wallet_rejects True))"
    by (simp add: t)
  have rej: "wallet_rejects ?tx = Inl (JsError ''User rejected the request.'')"
    by (simp add: wallet_rejects_def)
  from signer_rejection_aborts [OF m rej] m t show ?thesis
    by simp
qed

end
